theory Spec2Isabelle
  imports Complex_Main "HOL-Library.Word"
begin

section \<open>Arrays, shapes and machine integers\<close>

text \<open>
  A numpy array is modelled as a function from its indices to its cells; its shape is kept
  beside it where the code reads it.  The cells of the convolved tensors are \<open>int32\<close>
  (\<open>np.zeros(sh, dtype='int32')\<close>): a 32-bit word, whose \<open>+\<close> wraps as numpy's \<open>+=\<close> does
  and which is read as a signed number with \<open>sint\<close>.  The monthly grids hold counts, whole
  numbers stored in 64-bit cells, and are modelled as \<open>int\<close>; the sums that
  \<open>convolve2d\<close> forms of them are whole numbers too.
\<close>

type_synonym i32 = "32 word"

type_synonym 'a grid = "nat \<Rightarrow> nat \<Rightarrow> 'a"

text \<open>(year, month, lat, lon)\<close>
type_synonym monthly = "nat \<Rightarrow> nat \<Rightarrow> int grid"

text \<open>(window, year, season, lat, lon)\<close>
type_synonym tensor = "nat \<Rightarrow> nat \<Rightarrow> nat \<Rightarrow> i32 grid"

record shape =
  n_window :: nat
  n_year :: nat
  n_season :: nat
  n_lat :: nat
  n_lon :: nat

text \<open>\<open>sh = (7, 70, 5, 180, 360)\<close>\<close>
definition sh :: shape where
  "sh = \<lparr>n_window = 7, n_year = 70, n_season = 5, n_lat = 180, n_lon = 360\<rparr>"

text \<open>\<open>np.zeros(sh, dtype='int32')\<close>\<close>
definition np_zeros :: tensor where
  "np_zeros = (\<lambda>j iyr iseason la lo. 0)"

section \<open>Convolve Grids (notebook 004)\<close>

text \<open>
  The season table \<open>months\<close>, a list of five lists of month indices:
  DJF, MAM, JJA, SON, Annual.
\<close>
definition months :: "nat list list" where
  "months = [ [11, 0, 1], [2, 3, 4], [5, 6, 7], [8, 9, 10],
              [0, 1, 2, 3, 4, 5, 6, 7, 8, 9, 10, 11] ]"

text \<open>
  The shape of the kernel of window \<open>j\<close>: \<open>ndim = 2*j + 1\<close>, square
  \<open>(ndim, ndim)\<close> when \<open>j < sh[0] - 1\<close> and \<open>(ndim, 2*ndim + 1)\<close> for the last window.
\<close>
definition kernel_shape :: "shape \<Rightarrow> nat \<Rightarrow> nat \<times> nat" where
  "kernel_shape shp j =
     (let ndim = 2 * j + 1
      in if int j < int (n_window shp) - 1 then (ndim, ndim) else (ndim, 2 * ndim + 1))"

text \<open>\<open>np.ones(...)\<close>: every weight is 1.\<close>
definition np_ones :: "int grid" where
  "np_ones = (\<lambda>p q. 1)"

text \<open>
  The index that \<open>boundary='wrap'\<close> reads for position \<open>k\<close> on an axis of \<open>n\<close> cells: the
  grid continued periodically.  (scipy wraps once; that is the same index whenever the half
  width of the kernel does not exceed \<open>n\<close>, as for the 180 x 360 grid and kernels up to
  13 x 27.)
\<close>
definition wrap_index :: "nat \<Rightarrow> int \<Rightarrow> nat" where
  "wrap_index n k = nat (k mod int n)"

text \<open>
  \<open>convolve2d(t, a, mode='same', boundary='wrap')\<close> for a grid \<open>t\<close> of shape \<open>(H, W)\<close> and
  a kernel \<open>a\<close> of shape \<open>(kh, kw)\<close>: the full convolution
  \<open>sum over p, q of a[p, q] * t[m - p, n - q]\<close>, of which mode \<open>same\<close> keeps the centred
  part, the cell \<open>(i + (kh - 1) div 2, j + (kw - 1) div 2)\<close> for output cell \<open>(i, j)\<close>.
\<close>
definition convolve2d :: "nat \<times> nat \<Rightarrow> int grid \<Rightarrow> nat \<times> nat \<Rightarrow> int grid \<Rightarrow> int grid" where
  "convolve2d tshape t ashape a =
     (\<lambda>i j. \<Sum>p\<leftarrow>[0..<fst ashape]. \<Sum>q\<leftarrow>[0..<snd ashape].
        a p q * t (wrap_index (fst tshape) (int i + int ((fst ashape - 1) div 2) - int p))
                  (wrap_index (snd tshape) (int j + int ((snd ashape - 1) div 2) - int q)))"

text \<open>
  \<open>.astype('int32')\<close> of a whole number held in a float64 cell: the number itself when it
  lies in the int32 range; a value outside the range gives the most negative int32,
  \<open>-2^31\<close> (numpy warns of an invalid value and does not raise).
\<close>
definition astype_int32 :: "int \<Rightarrow> i32" where
  "astype_int32 x =
     (if - (2 ^ 31) \<le> x \<and> x < 2 ^ 31 then word_of_int x else word_of_int (- (2 ^ 31)))"

text \<open>
  \<open>convolve2d(t, a, mode='same', boundary='wrap').astype('int32') * ls_mask\<close>: the boolean
  mask multiplies as 1 where it is \<open>True\<close> and as 0 where it is \<open>False\<close>.
\<close>
definition masked_convolve :: "shape \<Rightarrow> bool grid \<Rightarrow> nat \<Rightarrow> int grid \<Rightarrow> i32 grid" where
  "masked_convolve shp ls_mask j t =
     (\<lambda>la lo. astype_int32 (convolve2d (n_lat shp, n_lon shp) t (kernel_shape shp j) np_ones la lo)
              * of_bool (ls_mask la lo))"

text \<open>\<open>tout[j, iyr, iseason, :, :] += g\<close>\<close>
definition add_slice :: "tensor \<Rightarrow> nat \<Rightarrow> nat \<Rightarrow> nat \<Rightarrow> i32 grid \<Rightarrow> tensor" where
  "add_slice tout j iyr iseason g =
     (\<lambda>j' iyr' iseason' la lo.
        if j' = j \<and> iyr' = iyr \<and> iseason' = iseason
        then tout j' iyr' iseason' la lo + g la lo
        else tout j' iyr' iseason' la lo)"

text \<open>The body of the innermost loop, for month \<open>imo\<close>.\<close>
definition month_step :: "shape \<Rightarrow> bool grid \<Rightarrow> monthly \<Rightarrow> nat \<Rightarrow> nat \<Rightarrow> nat \<Rightarrow> nat \<Rightarrow> tensor \<Rightarrow> tensor" where
  "month_step shp ls_mask tin j iyr iseason imo tout =
     add_slice tout j iyr iseason (masked_convolve shp ls_mask j (tin iyr imo))"

text \<open>\<open>for imo in months[iseason]: ...\<close>\<close>
definition month_loop :: "shape \<Rightarrow> bool grid \<Rightarrow> monthly \<Rightarrow> nat \<Rightarrow> nat \<Rightarrow> nat \<Rightarrow> tensor \<Rightarrow> tensor" where
  "month_loop shp ls_mask tin j iyr iseason tout =
     fold (month_step shp ls_mask tin j iyr iseason) (months ! iseason) tout"

text \<open>\<open>for iseason in range(len(months)): ...\<close>\<close>
definition season_loop :: "shape \<Rightarrow> bool grid \<Rightarrow> monthly \<Rightarrow> nat \<Rightarrow> nat \<Rightarrow> tensor \<Rightarrow> tensor" where
  "season_loop shp ls_mask tin j iyr tout =
     fold (month_loop shp ls_mask tin j iyr) [0..<length months] tout"

text \<open>\<open>for iyr in range(sh[1]): ...\<close>\<close>
definition year_loop :: "shape \<Rightarrow> bool grid \<Rightarrow> monthly \<Rightarrow> nat \<Rightarrow> tensor \<Rightarrow> tensor" where
  "year_loop shp ls_mask tin j tout =
     fold (season_loop shp ls_mask tin j) [0..<n_year shp] tout"

text \<open>\<open>for j in range(sh[0]): ...\<close>, on one input array \<open>tin\<close> and its output array.\<close>
definition window_loop :: "shape \<Rightarrow> bool grid \<Rightarrow> monthly \<Rightarrow> tensor \<Rightarrow> tensor" where
  "window_loop shp ls_mask tin tout =
     fold (year_loop shp ls_mask tin) [0..<n_window shp] tout"

text \<open>
  The whole cell: \<open>tlist_in = [nr, n50]\<close> are convolved into
  \<open>tlist_out = [nreports, nprecip]\<close>, both starting as zeros.
\<close>
definition convolve_grids :: "shape \<Rightarrow> bool grid \<Rightarrow> monthly \<Rightarrow> monthly \<Rightarrow> tensor \<times> tensor" where
  "convolve_grids shp ls_mask nr n50 =
     (window_loop shp ls_mask nr np_zeros, window_loop shp ls_mask n50 np_zeros)"

text \<open>
  The seasonal stage on its own, and the staged reading of the convolver, for comparison
  with the fused loop above.  The notebook has no separate seasonal stage: these two
  definitions follow the written contracts (\<open>each season slice is the element-wise sum of
  its member months' grids for that year\<close>, and
  \<open>floor(circular_convolve(input_slice, ones(window_shape)))\<close> times the mask, as int32),
  the mask factor being a parameter \<open>keep\<close>.
\<close>
definition seasonal_aggregate :: "monthly \<Rightarrow> nat \<Rightarrow> nat \<Rightarrow> int grid" where
  "seasonal_aggregate tin iyr iseason =
     (\<lambda>la lo. \<Sum>imo\<leftarrow>months ! iseason. tin iyr imo la lo)"

definition staged_convolve :: "shape \<Rightarrow> bool grid \<Rightarrow> monthly \<Rightarrow> nat \<Rightarrow> nat \<Rightarrow> nat \<Rightarrow> i32 grid" where
  "staged_convolve shp keep tin j iyr iseason =
     (\<lambda>la lo. astype_int32
          \<lfloor>real_of_int (convolve2d (n_lat shp, n_lon shp) (seasonal_aggregate tin iyr iseason)
                          (kernel_shape shp j) np_ones la lo)\<rfloor>
        * of_bool (keep la lo))"

text \<open>
  The number of reports that window \<open>j\<close> gathers around a cell over a season, as an
  unbounded integer (what the int32 cell holds when nothing has overflowed).
\<close>
definition window_total :: "shape \<Rightarrow> monthly \<Rightarrow> nat \<Rightarrow> nat \<Rightarrow> nat \<Rightarrow> int grid" where
  "window_total shp tin j iyr iseason =
     convolve2d (n_lat shp, n_lon shp) (seasonal_aggregate tin iyr iseason)
       (kernel_shape shp j) np_ones"

section \<open>Composite Fractions (notebook 006)\<close>

text \<open>
  A float32 cell: a finite value (\<open>Fin 0\<close> is +0.0), negative zero, the two infinities and
  NaN.  Finite arithmetic is exact in this model (rounding, overflow and underflow of finite
  results are not represented); the special values follow IEEE 754.
\<close>
datatype np_float = Fin real | NegZero | PInf | NInf | NaN

definition is_neg :: "np_float \<Rightarrow> bool" where
  "is_neg x = (case x of Fin r \<Rightarrow> r < 0 | NegZero \<Rightarrow> True | NInf \<Rightarrow> True
               | PInf \<Rightarrow> False | NaN \<Rightarrow> False)"

definition is_zero :: "np_float \<Rightarrow> bool" where
  "is_zero x = (x = Fin 0 \<or> x = NegZero)"

definition is_inf :: "np_float \<Rightarrow> bool" where
  "is_inf x = (x = PInf \<or> x = NInf)"

definition signed_zero :: "bool \<Rightarrow> np_float" where
  "signed_zero neg = (if neg then NegZero else Fin 0)"

definition signed_inf :: "bool \<Rightarrow> np_float" where
  "signed_inf neg = (if neg then NInf else PInf)"

definition to_real :: "np_float \<Rightarrow> real" where
  "to_real x = (case x of Fin r \<Rightarrow> r | _ \<Rightarrow> 0)"

text \<open>\<open>a / b\<close>: numpy does not raise on a zero divisor, it yields \<open>inf\<close>, \<open>-inf\<close> or \<open>nan\<close>.\<close>
definition fdiv :: "np_float \<Rightarrow> np_float \<Rightarrow> np_float" where
  "fdiv a b =
     (if a = NaN \<or> b = NaN then NaN
      else if is_inf a then (if is_inf b then NaN else signed_inf (is_neg a \<noteq> is_neg b))
      else if is_inf b then signed_zero (is_neg a \<noteq> is_neg b)
      else if is_zero b then (if is_zero a then NaN else signed_inf (is_neg a \<noteq> is_neg b))
      else if is_zero a then signed_zero (is_neg a \<noteq> is_neg b)
      else Fin (to_real a / to_real b))"

text \<open>\<open>a + b\<close>\<close>
definition fadd :: "np_float \<Rightarrow> np_float \<Rightarrow> np_float" where
  "fadd a b =
     (if a = NaN \<or> b = NaN then NaN
      else if is_inf a then (if is_inf b \<and> a \<noteq> b then NaN else a)
      else if is_inf b then b
      else if a = NegZero \<and> b = NegZero then NegZero
      else Fin (to_real a + to_real b))"

text \<open>\<open>a < b\<close>: false whenever an operand is NaN.\<close>
definition flt :: "np_float \<Rightarrow> np_float \<Rightarrow> bool" where
  "flt a b =
     (if a = NaN \<or> b = NaN then False
      else if a = PInf \<or> b = NInf then False
      else if a = NInf \<or> b = PInf then True
      else to_real a < to_real b)"

text \<open>A cell of the composites: its (year, season, lat, lon) index.\<close>
type_synonym cell = "nat \<times> nat \<times> nat \<times> nat"

text \<open>(window, cell)\<close>
type_synonym fractions = "nat \<Rightarrow> cell \<Rightarrow> np_float"

text \<open>\<open>fcomp\<close>, \<open>scomp\<close> (float32) and \<open>rcomp\<close> (int8).\<close>
record composite =
  fcomp :: "cell \<Rightarrow> np_float"
  scomp :: "cell \<Rightarrow> np_float"
  rcomp :: "cell \<Rightarrow> 8 word"

text \<open>
  \<open>fcomp = np.zeros(sh[1:], dtype='float32')*np.nan\<close>, the same for \<open>scomp\<close>, and
  \<open>rcomp = np.zeros(sh[1:], dtype='int8') - 1\<close>.
\<close>
definition composite_init :: composite where
  "composite_init = \<lparr>fcomp = (\<lambda>c. NaN), scomp = (\<lambda>c. NaN), rcomp = (\<lambda>c. 0 - 1)\<rparr>"

text \<open>\<open>[0.4, 0.3, 0.2, 0.1, 0.05, 0.03, 0.02, 0.01, 0.005, 0.003, 0.002, 0.001]\<close>\<close>
definition thresholds :: "real list" where
  "thresholds = [0.4, 0.3, 0.2, 0.1, 0.05, 0.03, 0.02, 0.01, 0.005, 0.003, 0.002, 0.001]"

text \<open>\<open>sratio = s/f\<close>\<close>
definition sratio :: "fractions \<Rightarrow> fractions \<Rightarrow> fractions" where
  "sratio f s = (\<lambda>i c. fdiv (s i c) (f i c))"

text \<open>
  The body of the inner loop for window \<open>i\<close>: the masks \<open>m1\<close>, \<open>m2\<close> and \<open>m\<close>, and the three
  masked assignments \<open>fcomp[m] = f[i][m]\<close>, \<open>scomp[m] = s[i][m]\<close>, \<open>rcomp[m] = i\<close>.
\<close>
definition window_pass :: "fractions \<Rightarrow> fractions \<Rightarrow> real \<Rightarrow> nat \<Rightarrow> composite \<Rightarrow> composite" where
  "window_pass f s sthresh i acc =
     (let sr = sratio f s i;
          m1 = (\<lambda>c. flt (sr c) (Fin sthresh));
          m2 = (\<lambda>c. flt (fadd (f i c) (s i c)) (Fin 0.01));
          m = (\<lambda>c. m1 c \<or> m2 c)
      in \<lparr>fcomp = (\<lambda>c. if m c then f i c else fcomp acc c),
          scomp = (\<lambda>c. if m c then s i c else scomp acc c),
          rcomp = (\<lambda>c. if m c then of_nat i else rcomp acc c)\<rparr>)"

text \<open>\<open>for i in np.flip(np.arange(sh[0])): ...\<close>\<close>
definition threshold_pass :: "shape \<Rightarrow> fractions \<Rightarrow> fractions \<Rightarrow> real \<Rightarrow> composite \<Rightarrow> composite" where
  "threshold_pass shp f s sthresh acc =
     fold (window_pass f s sthresh) (rev [0..<n_window shp]) acc"

text \<open>\<open>for sthresh in [0.4, ..., 0.001]: ...\<close>, from the initial composites.\<close>
definition composite_fractions :: "shape \<Rightarrow> fractions \<Rightarrow> fractions \<Rightarrow> composite" where
  "composite_fractions shp f s = fold (threshold_pass shp f s) thresholds composite_init"

text \<open>The three composites at one cell.\<close>
definition cell_of :: "composite \<Rightarrow> cell \<Rightarrow> np_float \<times> np_float \<times> 8 word" where
  "cell_of r c = (fcomp r c, scomp r c, rcomp r c)"

text \<open>
  The selection rule in words: the (threshold, window) pairs in iteration order, thresholds
  outermost and descending, windows from the widest down to 0; a pair is eligible at a cell
  when \<open>s/f < threshold\<close> or \<open>f + s < 0.01\<close> there; the last eligible pair, if any, makes
  the assignment.
\<close>
definition iteration_order :: "shape \<Rightarrow> (real \<times> nat) list" where
  "iteration_order shp = List.product thresholds (rev [0..<n_window shp])"

definition eligible :: "fractions \<Rightarrow> fractions \<Rightarrow> cell \<Rightarrow> real \<times> nat \<Rightarrow> bool" where
  "eligible f s c p =
     (flt (fdiv (s (snd p) c) (f (snd p) c)) (Fin (fst p))
      \<or> flt (fadd (f (snd p) c) (s (snd p) c)) (Fin 0.01))"

definition last_eligible :: "shape \<Rightarrow> fractions \<Rightarrow> fractions \<Rightarrow> cell \<Rightarrow> (real \<times> nat) option" where
  "last_eligible shp f s c =
     (case rev (filter (eligible f s c) (iteration_order shp)) of
        [] \<Rightarrow> None | p # ps \<Rightarrow> Some p)"

definition assignment :: "fractions \<Rightarrow> fractions \<Rightarrow> cell \<Rightarrow> (real \<times> nat) option
    \<Rightarrow> np_float \<times> np_float \<times> 8 word" where
  "assignment f s c sel =
     (case sel of None \<Rightarrow> (NaN, NaN, - 1)
      | Some p \<Rightarrow> (f (snd p) c, s (snd p) c, of_nat (snd p)))"

section \<open>Tabulate Grids (the binning notebook)\<close>

text \<open>A ship report: the columns of the dataframe that the binning reads.\<close>
record obs =
  YR :: int
  MO :: int
  LAT :: real
  LON :: real
  WW :: int

text \<open>The dataframe after \<open>df['LAT_BIN'] = ...\<close> and \<open>df['LON_BIN'] = ...\<close>.\<close>
record binned = obs +
  LAT_BIN :: int
  LON_BIN :: int

datatype error = ValueError | IndexError

text \<open>\<open>np.arange(start, stop, step)\<close> on integers, for a positive step.\<close>
definition np_arange :: "int \<Rightarrow> int \<Rightarrow> int \<Rightarrow> int list" where
  "np_arange start stop step =
     map (\<lambda>k. start + int k * step) [0..<nat (- ((start - stop) div step))]"

definition dlat :: int where "dlat = 1"
definition dlon :: int where "dlon = 1"

text \<open>\<open>lats = np.arange(-90,90,dlat)\<close>, \<open>lons = np.arange(0,360,dlon)\<close>,
  \<open>months = np.arange(1,13)\<close>\<close>
definition lats :: "int list" where "lats = np_arange (- 90) 90 dlat"
definition lons :: "int list" where "lons = np_arange 0 360 dlon"
definition month_axis :: "int list" where "month_axis = np_arange 1 13 1"

text \<open>
  \<open>np.digitize(x, bins)\<close> for one value: with increasing bins the index \<open>i\<close> such that
  \<open>bins[i-1] <= x < bins[i]\<close>, 0 below the first bin and \<open>len(bins)\<close> from the last bin on;
  with decreasing bins the \<open>i\<close> such that \<open>bins[i-1] > x >= bins[i]\<close>.
\<close>
definition digitize1 :: "int list \<Rightarrow> real \<Rightarrow> nat" where
  "digitize1 bins x =
     (if sorted bins then length (takeWhile (\<lambda>b. real_of_int b \<le> x) bins)
      else length (takeWhile (\<lambda>b. x < real_of_int b) bins))"

text \<open>\<open>np.digitize(xs, bins=bins)\<close>: bins that are not monotonic raise ValueError.\<close>
definition np_digitize :: "real list \<Rightarrow> int list \<Rightarrow> error + nat list" where
  "np_digitize xs bins =
     (if sorted bins \<or> sorted (rev bins) then Inr (map (digitize1 bins) xs)
      else Inl ValueError)"

text \<open>
  \<open>arr[k]\<close> for one integer index: a negative index counts from the end, an index out of
  bounds raises IndexError.
\<close>
definition np_index :: "int list \<Rightarrow> int \<Rightarrow> error + int" where
  "np_index arr k =
     (let n = int (length arr)
      in if - n \<le> k \<and> k < n then Inr (arr ! nat (if k < 0 then k + n else k))
         else Inl IndexError)"

text \<open>\<open>arr[ks]\<close> for an array of indices.\<close>
fun np_take :: "int list \<Rightarrow> int list \<Rightarrow> error + int list" where
  "np_take arr [] = Inr []"
| "np_take arr (k # ks) =
     (case np_index arr k of Inl e \<Rightarrow> Inl e
      | Inr v \<Rightarrow> (case np_take arr ks of Inl e \<Rightarrow> Inl e | Inr vs \<Rightarrow> Inr (v # vs)))"

text \<open>The dataframe with its two new columns.\<close>
fun with_bins :: "obs list \<Rightarrow> int list \<Rightarrow> int list \<Rightarrow> binned list" where
  "with_bins (r # rs) (la # las) (lo # los) =
     \<lparr>YR = YR r, MO = MO r, LAT = LAT r, LON = LON r, WW = WW r, LAT_BIN = la, LON_BIN = lo\<rparr>
     # with_bins rs las los"
| "with_bins rs las los = []"

text \<open>
  \<open>lon_bin = np.digitize(df.LON.values, bins=lons)\<close>,
  \<open>lat_bin = np.digitize(df.LAT.values, bins=lats)\<close>,
  \<open>df['LAT_BIN'] = lats[lat_bin-1]\<close>, \<open>df['LON_BIN'] = lons[lon_bin-1]\<close>.
\<close>
definition add_bins :: "int list \<Rightarrow> int list \<Rightarrow> obs list \<Rightarrow> error + binned list" where
  "add_bins lat_edges lon_edges df =
     (case np_digitize (map LON df) lon_edges of Inl e \<Rightarrow> Inl e | Inr lon_bin \<Rightarrow>
     (case np_digitize (map LAT df) lat_edges of Inl e \<Rightarrow> Inl e | Inr lat_bin \<Rightarrow>
     (case np_take lat_edges (map (\<lambda>d. int d - 1) lat_bin) of Inl e \<Rightarrow> Inl e | Inr lat_col \<Rightarrow>
     (case np_take lon_edges (map (\<lambda>d. int d - 1) lon_bin) of Inl e \<Rightarrow> Inl e | Inr lon_col \<Rightarrow>
        Inr (with_bins df lat_col lon_col)))))"

text \<open>\<open>colgroups = ['YR','MO','LAT_BIN','LON_BIN']\<close>: the key of a row.\<close>
definition colgroups :: "binned \<Rightarrow> int \<times> int \<times> int \<times> int" where
  "colgroups r = (YR r, MO r, LAT_BIN r, LON_BIN r)"

text \<open>\<open>rows.groupby(colgroups).size()\<close> at one key (a key with no row has no entry; it is
  filled with 0 below).\<close>
definition group_size :: "binned list \<Rightarrow> int \<times> int \<times> int \<times> int \<Rightarrow> nat" where
  "group_size rows key = length (filter (\<lambda>r. colgroups r = key) rows)"

text \<open>
  \<open>.to_xarray().fillna(0).reindex(reindexer, fill_value=0)\<close> and \<open>.values\<close>: the count of
  each (year, month, latitude edge, longitude edge) of the axes, 0 where the table has no
  entry.
\<close>
definition count_grid :: "int list \<Rightarrow> int list \<Rightarrow> int list \<Rightarrow> binned list \<Rightarrow> monthly" where
  "count_grid years lat_edges lon_edges rows =
     (\<lambda>yi mi lai loi.
        if yi < length years \<and> mi < length month_axis
           \<and> lai < length lat_edges \<and> loi < length lon_edges
        then int (group_size rows (years ! yi, month_axis ! mi, lat_edges ! lai, lon_edges ! loi))
        else 0)"

text \<open>
  The binning notebook from the dataframe to the two count arrays: \<open>df_reports\<close> counts
  every row, \<open>df_precip\<close> the rows with \<open>WW >= 50\<close>.  The axis of years is a parameter.
\<close>
definition tabulate_grids :: "int list \<Rightarrow> int list \<Rightarrow> int list \<Rightarrow> obs list
    \<Rightarrow> error + monthly \<times> monthly" where
  "tabulate_grids years lat_edges lon_edges df =
     (case add_bins lat_edges lon_edges df of Inl e \<Rightarrow> Inl e
      | Inr rows \<Rightarrow>
          Inr (count_grid years lat_edges lon_edges rows,
               count_grid years lat_edges lon_edges (filter (\<lambda>r. 50 \<le> WW r) rows)))"

text \<open>
  The edge that \<open>add_bins\<close> gives a coordinate when the bins increase:
  \<open>bins[d - 1]\<close> for \<open>d = np.digitize(x, bins)\<close>, which for \<open>d = 0\<close> is \<open>bins[-1]\<close>, the last
  edge.
\<close>
definition assigned_edge :: "int list \<Rightarrow> real \<Rightarrow> int" where
  "assigned_edge bins x =
     (let d = digitize1 bins x in if d = 0 then last bins else bins ! (d - 1))"

text \<open>Floor to the nearest lower edge, in words: \<open>b\<close> is the greatest edge at or below \<open>x\<close>.\<close>
definition greatest_lower_edge :: "int list \<Rightarrow> real \<Rightarrow> int \<Rightarrow> bool" where
  "greatest_lower_edge bins x b =
     (b \<in> set bins \<and> real_of_int b \<le> x
      \<and> (\<forall>b'\<in>set bins. real_of_int b' \<le> x \<longrightarrow> b' \<le> b))"

section \<open>Sample inputs\<close>

text \<open>
  A coast: cell (0, 0) is land and every other cell is sea; each month of each year has one
  report, in the sea cell (1, 1) next to the land cell.
\<close>
definition coast_mask :: "bool grid" where
  "coast_mask = (\<lambda>la lo. la = 0 \<and> lo = 0)"

definition coast_reports :: monthly where
  "coast_reports = (\<lambda>iyr imo la lo. if la = 1 \<and> lo = 1 then 1 else 0)"

text \<open>
  A crowded cell: \<open>2^30\<close> reports in the cell (0, 0) in every month of every year, one of
  them of rain, and nothing elsewhere.
\<close>
definition crowded_reports :: monthly where
  "crowded_reports = (\<lambda>iyr imo la lo. if la = 0 \<and> lo = 0 then 2 ^ 30 else 0)"

definition crowded_precip :: monthly where
  "crowded_precip = (\<lambda>iyr imo la lo. if la = 0 \<and> lo = 0 then 1 else 0)"

text \<open>\<open>years = np.arange(start_yr, end_yr + 1)\<close> for the seventy years 1950 to 2019.\<close>
definition years_1950_2019 :: "int list" where
  "years_1950_2019 = np_arange 1950 2020 1"

text \<open>Two reports of January 1950 at 0.5N 0.5E, one of them of rain (\<open>WW = 61\<close>).\<close>
definition two_reports :: "obs list" where
  "two_reports = [\<lparr>YR = 1950, MO = 1, LAT = 0.5, LON = 0.5, WW = 61\<rparr>,
                  \<lparr>YR = 1950, MO = 1, LAT = 0.5, LON = 0.5, WW = 2\<rparr>]"

text \<open>The same two reports with their bin columns.\<close>
definition two_rows :: "binned list" where
  "two_rows =
     [\<lparr>YR = 1950, MO = 1, LAT = 0.5, LON = 0.5, WW = 61, LAT_BIN = 0, LON_BIN = 0\<rparr>,
      \<lparr>YR = 1950, MO = 1, LAT = 0.5, LON = 0.5, WW = 2, LAT_BIN = 0, LON_BIN = 0\<rparr>]"

text \<open>A mask that is \<open>True\<close> at the cell of these reports, (90, 0), and nowhere else.\<close>
definition gulf_mask :: "bool grid" where
  "gulf_mask = (\<lambda>la lo. la = 90 \<and> lo = 0)"

text \<open>A report with a latitude of 91 degrees south, below the first latitude edge.\<close>
definition stray_report :: "obs list" where
  "stray_report = [\<lparr>YR = 1950, MO = 1, LAT = - 91, LON = 0.5, WW = 2\<rparr>]"

text \<open>A report at 12.5N 200.25E.\<close>
definition pacific_report :: "obs list" where
  "pacific_report = [\<lparr>YR = 1950, MO = 1, LAT = 12.5, LON = 200.25, WW = 2\<rparr>]"

text \<open>Fractions and standard errors that are 0 in every window and cell.\<close>
definition zero_fractions :: fractions where
  "zero_fractions = (\<lambda>i c. Fin 0)"

text \<open>Standard errors of minus one in every window and cell.\<close>
definition negative_sigmas :: fractions where
  "negative_sigmas = (\<lambda>i c. Fin (- 1))"

text \<open>Fractions that are -0.0 in every window and cell.\<close>
definition negative_zero_fractions :: fractions where
  "negative_zero_fractions = (\<lambda>i c. NegZero)"

text \<open>Standard errors of one half in every window and cell.\<close>
definition half_sigmas :: fractions where
  "half_sigmas = (\<lambda>i c. Fin 0.5)"

text \<open>
  One cell seen through the windows: the widest window has \<open>f = 0.5, s = 0.002\<close>, window 0
  has \<open>f = 0.52, s = 0.0005\<close>, and the windows between have \<open>f = 0.5, s = 0.3\<close>.
\<close>
definition scenario_f :: fractions where
  "scenario_f = (\<lambda>i c. if i = 0 then Fin 0.52 else Fin 0.5)"

definition scenario_s :: fractions where
  "scenario_s = (\<lambda>i c. if i = 0 then Fin 0.0005 else if i = 6 then Fin 0.002 else Fin 0.3)"

section \<open>The accumulation loops in closed form\<close>

lemma month_fold_cell:
  "fold (month_step shp ls_mask tin j iyr iseason) ms tout j' iyr' iseason' la lo =
     tout j' iyr' iseason' la lo +
     (if j' = j \<and> iyr' = iyr \<and> iseason' = iseason
      then (\<Sum>imo\<leftarrow>ms. masked_convolve shp ls_mask j (tin iyr imo) la lo) else 0)"
  by (induction ms arbitrary: tout) (simp_all add: month_step_def add_slice_def)

lemma season_fold_cell:
  "distinct ss \<Longrightarrow>
   fold (month_loop shp ls_mask tin j iyr) ss tout j' iyr' iseason' la lo =
     tout j' iyr' iseason' la lo +
     (if j' = j \<and> iyr' = iyr \<and> iseason' \<in> set ss
      then (\<Sum>imo\<leftarrow>months ! iseason'. masked_convolve shp ls_mask j (tin iyr imo) la lo) else 0)"
  by (induction ss arbitrary: tout) (auto simp add: month_loop_def month_fold_cell)

lemma year_fold_cell:
  "distinct ys \<Longrightarrow>
   fold (season_loop shp ls_mask tin j) ys tout j' iyr' iseason' la lo =
     tout j' iyr' iseason' la lo +
     (if j' = j \<and> iyr' \<in> set ys \<and> iseason' < length months
      then (\<Sum>imo\<leftarrow>months ! iseason'. masked_convolve shp ls_mask j (tin iyr' imo) la lo) else 0)"
  by (induction ys arbitrary: tout) (auto simp add: season_loop_def season_fold_cell)

lemma window_fold_cell:
  "distinct js \<Longrightarrow>
   fold (year_loop shp ls_mask tin) js tout j' iyr' iseason' la lo =
     tout j' iyr' iseason' la lo +
     (if j' \<in> set js \<and> iyr' < n_year shp \<and> iseason' < length months
      then (\<Sum>imo\<leftarrow>months ! iseason'. masked_convolve shp ls_mask j' (tin iyr' imo) la lo) else 0)"
  by (induction js arbitrary: tout) (auto simp add: year_loop_def year_fold_cell)

lemma window_loop_cell:
  "window_loop shp ls_mask tin np_zeros j iyr iseason la lo =
     (if j < n_window shp \<and> iyr < n_year shp \<and> iseason < length months
      then (\<Sum>imo\<leftarrow>months ! iseason. masked_convolve shp ls_mask j (tin iyr imo) la lo) else 0)"
  by (simp add: window_loop_def window_fold_cell np_zeros_def)

lemma months_nth:
  "months ! 0 = [11, 0, 1]" "months ! 1 = [2, 3, 4]" "months ! Suc 0 = [2, 3, 4]"
  "months ! 2 = [5, 6, 7]" "months ! 3 = [8, 9, 10]"
  "months ! 4 = [0, 1, 2, 3, 4, 5, 6, 7, 8, 9, 10, 11]"
  "length months = 5"
  by (simp_all add: months_def)

section \<open>Convolution of sums, and the cast\<close>

lemma convolve2d_zero: "convolve2d ts (\<lambda>la lo. 0) ks a i j = 0"
  by (simp add: convolve2d_def)

lemma convolve2d_add:
  "convolve2d ts (\<lambda>la lo. t1 la lo + t2 la lo) ks a i j =
     convolve2d ts t1 ks a i j + convolve2d ts t2 ks a i j"
  by (simp add: convolve2d_def distrib_left sum_list_addf)

lemma convolve2d_sum_list:
  "convolve2d ts (\<lambda>la lo. \<Sum>m\<leftarrow>ms. t m la lo) ks a i j =
     (\<Sum>m\<leftarrow>ms. convolve2d ts (t m) ks a i j)"
  by (induction ms) (simp_all add: convolve2d_zero convolve2d_add)

lemma convolve2d_ones_mono:
  "(\<And>la lo. t1 la lo \<le> t2 la lo) \<Longrightarrow>
   convolve2d ts t1 ks np_ones i j \<le> convolve2d ts t2 ks np_ones i j"
  by (simp add: convolve2d_def np_ones_def sum_list_mono)

lemma convolve2d_ones_nonneg:
  "(\<And>la lo. 0 \<le> t la lo) \<Longrightarrow> 0 \<le> convolve2d ts t ks np_ones i j"
  unfolding convolve2d_def np_ones_def by (auto intro!: sum_list_nonneg)

lemma window_total_sum:
  "window_total shp tin j iyr iseason la lo =
     (\<Sum>imo\<leftarrow>months ! iseason.
        convolve2d (n_lat shp, n_lon shp) (tin iyr imo) (kernel_shape shp j) np_ones la lo)"
  by (simp add: window_total_def seasonal_aggregate_def convolve2d_sum_list)

lemma astype_int32_fits:
  "0 \<le> x \<Longrightarrow> x < 2 ^ 31 \<Longrightarrow> astype_int32 x = word_of_int x"
  by (simp add: astype_int32_def)

lemma sint_word_of_int_fits:
  "0 \<le> x \<Longrightarrow> x < 2 ^ 31 \<Longrightarrow> sint (word_of_int x :: i32) = x"
  by (simp add: sint_sbintrunc' signed_take_bit_int_eq_self)

lemma elem_le_sum_list:
  fixes ys :: "int list"
  shows "(\<And>y. y \<in> set ys \<Longrightarrow> 0 \<le> y) \<Longrightarrow> x \<in> set ys \<Longrightarrow> x \<le> sum_list ys"
proof (induction ys)
  case Nil
  then show ?case by simp
next
  case (Cons y ys)
  have rest: "0 \<le> sum_list ys"
    by (rule sum_list_nonneg) (simp add: Cons.prems)
  show ?case
  proof (cases "x = y")
    case True
    then show ?thesis using rest by simp
  next
    case False
    then have "x \<le> sum_list ys"
      using Cons by simp
    moreover have "0 \<le> y"
      by (simp add: Cons.prems)
    ultimately show ?thesis by simp
  qed
qed

lemma word_of_int_sum_list:
  "(\<Sum>m\<leftarrow>ms. (word_of_int (g m) :: i32)) = word_of_int (\<Sum>m\<leftarrow>ms. g m)"
  by (induction ms) simp_all

text \<open>Casts of counts add up to the cast of their sum as long as the sum fits 32 bits.\<close>

lemma astype_int32_sum_list_fits:
  assumes nonneg: "\<And>m. m \<in> set ms \<Longrightarrow> 0 \<le> g m"
      and fits: "(\<Sum>m\<leftarrow>ms. g m) < 2 ^ 31"
  shows "(\<Sum>m\<leftarrow>ms. astype_int32 (g m)) = word_of_int (\<Sum>m\<leftarrow>ms. g m)"
proof -
  have "astype_int32 (g m) = word_of_int (g m)" if m: "m \<in> set ms" for m
  proof -
    have "g m \<le> sum_list (map g ms)"
      by (rule elem_le_sum_list) (use nonneg m in auto)
    then show ?thesis
      using fits nonneg [OF m] by (simp add: astype_int32_fits)
  qed
  then have "map (\<lambda>m. astype_int32 (g m)) ms = map (\<lambda>m. word_of_int (g m)) ms"
    by (intro map_cong refl)
  then have "(\<Sum>m\<leftarrow>ms. astype_int32 (g m)) = (\<Sum>m\<leftarrow>ms. (word_of_int (g m) :: i32))"
    by (rule arg_cong)
  also have "\<dots> = word_of_int (\<Sum>m\<leftarrow>ms. g m)"
    by (rule word_of_int_sum_list)
  finally show ?thesis .
qed

lemma window_loop_total:
  assumes nonneg: "\<And>imo la lo. 0 \<le> tin iyr imo la lo"
      and fits: "window_total shp tin j iyr iseason la lo < 2 ^ 31"
  shows "window_loop shp ls_mask tin np_zeros j iyr iseason la lo =
     (if j < n_window shp \<and> iyr < n_year shp \<and> iseason < length months
      then word_of_int (window_total shp tin j iyr iseason la lo) * of_bool (ls_mask la lo)
      else 0)"
proof -
  have "(\<Sum>imo\<leftarrow>months ! iseason. astype_int32
           (convolve2d (n_lat shp, n_lon shp) (tin iyr imo) (kernel_shape shp j) np_ones la lo)) =
        word_of_int (window_total shp tin j iyr iseason la lo)"
    unfolding window_total_sum
    by (rule astype_int32_sum_list_fits)
       (use fits in \<open>simp_all add: window_total_sum convolve2d_ones_nonneg nonneg\<close>)
  then show ?thesis
    by (simp add: window_loop_cell masked_convolve_def sum_list_mult_const)
qed

lemma kernel_shape_0: "1 < n_window shp \<Longrightarrow> kernel_shape shp 0 = (Suc 0, Suc 0)"
  by (simp add: kernel_shape_def)

lemma convolve2d_identity:
  "i < H \<Longrightarrow> j < W \<Longrightarrow> convolve2d (H, W) t (Suc 0, Suc 0) np_ones i j = t i j"
  by (simp add: convolve2d_def np_ones_def wrap_index_def)

lemma upt_0_3: "[0..<3] = [0, 1, 2]"
  by code_simp

lemma coast_convolve:
  "convolve2d (180, 360) (coast_reports iyr imo) (kernel_shape sh (Suc 0)) np_ones 0 0 = 1"
  by (simp add: coast_reports_def sh_def kernel_shape_def convolve2d_def np_ones_def
      wrap_index_def upt_0_3)

lemma coast_masked_convolve:
  "masked_convolve sh coast_mask (Suc 0) (coast_reports iyr imo) 0 0 = 1"
  using coast_convolve [of iyr imo]
  by (simp add: coast_mask_def masked_convolve_def astype_int32_def) (simp add: sh_def)

lemma coast_window_1_djf:
  "iyr < 70 \<Longrightarrow> window_loop sh coast_mask coast_reports np_zeros (Suc 0) iyr 0 0 0 = 3"
  by (simp add: window_loop_cell months_nth coast_masked_convolve) (simp add: sh_def)

lemma coast_window_total:
  "window_total sh coast_reports (Suc 0) iyr 0 0 0 = 3"
  using coast_convolve by (simp add: window_total_sum months_nth) (simp add: sh_def)

text \<open>
  What the loop leaves in a cell: 0 wherever the mask is \<open>False\<close>, and for window 0 the sum
  of the casts of the member months' counts wherever the mask is \<open>True\<close>.
\<close>

lemma window_loop_mask_False:
  "\<not> ls_mask la lo \<Longrightarrow> window_loop shp ls_mask tin np_zeros j iyr iseason la lo = 0"
  by (simp add: window_loop_cell masked_convolve_def)

lemma window_loop_window_0:
  assumes "1 < n_window shp" and "iyr < n_year shp" and "iseason < 5"
      and "la < n_lat shp" and "lo < n_lon shp"
  shows "window_loop shp ls_mask tin np_zeros 0 iyr iseason la lo =
           (\<Sum>imo\<leftarrow>months ! iseason. astype_int32 (tin iyr imo la lo)) * of_bool (ls_mask la lo)"
  using assms
  by (simp add: window_loop_cell months_nth masked_convolve_def kernel_shape_0
      convolve2d_identity sum_list_mult_const)

lemma crowded_window_0:
  "window_loop sh coast_mask crowded_reports np_zeros 0 0 0 0 0 = 3 * 2 ^ 30"
  "window_loop sh coast_mask crowded_precip np_zeros 0 0 0 0 0 = 3"
  by (simp_all add: window_loop_window_0 sh_def months_nth coast_mask_def crowded_reports_def
      crowded_precip_def astype_int32_def)

lemma crowded_staged_0:
  "staged_convolve sh coast_mask crowded_reports 0 0 0 0 0 = 2 ^ 31"
proof -
  have "kernel_shape sh 0 = (Suc 0, Suc 0)"
    by (simp add: kernel_shape_0 sh_def)
  then show ?thesis
    by (simp add: staged_convolve_def sh_def convolve2d_identity seasonal_aggregate_def
        months_nth crowded_reports_def coast_mask_def astype_int32_def)
qed

section \<open>Properties of the convolver\<close>

text \<open>
  C1.  Land masking: the convolved output is exactly 0 at every cell where the land mask is
  true.  The notebook defines the mask as \<open>True\<close> where there is land and sets out to filter
  the land out, but the loop multiplies by \<open>ls_mask\<close> itself, which keeps the cells where the
  mask is true.  On the sample coast the land cell (0, 0) ends with the three reports that
  the 3 x 3 window gathers from the neighbouring sea cell in December, January and February.
\<close>
theorem land_cell_keeps_convolved_count:
  "coast_mask 0 0 \<and> window_loop sh coast_mask coast_reports np_zeros 1 0 0 0 0 = 3"
  using coast_window_1_djf [of 0] by (simp add: coast_mask_def)

text \<open>
  C3.  The fused loop (convolve each member month, cast, mask, accumulate) gives the same
  cell as the staged pipeline (sum the member months, convolve once, floor, cast, the same
  mask once), for every window, year, season and cell.  This fails where the counts leave
  the int32 range: the accumulation wraps, the cast of a sum beyond the range does not.  In
  the crowded cell the three months of DJF accumulate to \<open>3 * 2^30\<close>, which an int32 reads
  as \<open>-2^30\<close>, while the cast of their sum is \<open>-2^31\<close>.
\<close>
theorem fused_differs_from_staged_beyond_int32:
  "sint (window_loop sh coast_mask crowded_reports np_zeros 0 0 0 0 0) = - (2 ^ 30)
   \<and> sint (staged_convolve sh coast_mask crowded_reports 0 0 0 0 0) = - (2 ^ 31)
   \<and> window_loop sh coast_mask crowded_reports np_zeros 0 0 0 0 0 \<noteq>
       staged_convolve sh coast_mask crowded_reports 0 0 0 0 0"
  by (simp add: crowded_window_0 crowded_staged_0)

text \<open>
  C3, as the loop behaves.  For a year of counts (no cell negative) and a cell whose window
  total over the season is below \<open>2^31\<close>, the fused loop gives the same cell as the staged
  pipeline, for every window, season and mask.
\<close>
theorem fused_equals_staged:
  assumes "j < n_window shp" and "iyr < n_year shp" and "iseason < 5"
      and nonneg: "\<And>imo la lo. 0 \<le> tin iyr imo la lo"
      and fits: "window_total shp tin j iyr iseason la lo < 2 ^ 31"
  shows "window_loop shp ls_mask tin np_zeros j iyr iseason la lo =
           staged_convolve shp ls_mask tin j iyr iseason la lo"
proof -
  have "0 \<le> window_total shp tin j iyr iseason la lo"
    unfolding window_total_sum
    by (rule sum_list_nonneg) (auto simp add: convolve2d_ones_nonneg nonneg)
  then have "staged_convolve shp ls_mask tin j iyr iseason la lo =
      word_of_int (window_total shp tin j iyr iseason la lo) * of_bool (ls_mask la lo)"
    using fits by (simp add: staged_convolve_def window_total_def astype_int32_fits)
  then show ?thesis
    using assms(1-3) by (simp add: window_loop_total [OF nonneg fits] months_nth)
qed

theorem fused_equals_staged_witness:
  "(1::nat) < n_window sh \<and> (0::nat) < n_year sh \<and> (0::nat) < 5
   \<and> (0::int) \<le> coast_reports 0 11 1 1
   \<and> window_total sh coast_reports 1 0 0 0 0 = 3
   \<and> window_loop sh coast_mask coast_reports np_zeros 1 0 0 0 0 =
       staged_convolve sh coast_mask coast_reports 1 0 0 0 0
   \<and> staged_convolve sh coast_mask coast_reports 1 0 0 0 0 = 3"
proof -
  have nonneg: "0 \<le> coast_reports 0 imo la lo" for imo la lo
    by (simp add: coast_reports_def)
  have fits: "window_total sh coast_reports 1 0 0 0 0 < 2 ^ 31"
    using coast_window_total [of 0] by simp
  have "window_loop sh coast_mask coast_reports np_zeros 1 0 0 0 0 =
          staged_convolve sh coast_mask coast_reports 1 0 0 0 0"
    by (rule fused_equals_staged [OF _ _ _ nonneg fits]) (simp_all add: sh_def)
  then show ?thesis
    using coast_window_1_djf [of 0] coast_window_total [of 0] nonneg [of 11 1 1]
    by (simp add: sh_def)
qed

text \<open>
  C5.  Season-sum invariant: the Annual slice of a year is the cell-wise (int32) sum of the
  DJF, MAM, JJA and SON slices of the same year, for every window and cell.
\<close>
theorem annual_is_sum_of_seasons:
  "window_loop shp ls_mask tin np_zeros j Y 4 la lo =
     window_loop shp ls_mask tin np_zeros j Y 0 la lo
   + window_loop shp ls_mask tin np_zeros j Y 1 la lo
   + window_loop shp ls_mask tin np_zeros j Y 2 la lo
   + window_loop shp ls_mask tin np_zeros j Y 3 la lo"
  by (simp add: window_loop_cell months_nth)

text \<open>
  C6.  Identity window: for window 0 the output at every sea cell equals the seasonal count
  of that cell, and every land cell is 0.  With the mask multiplied in as it is, this is
  the other way round: on the sample coast the sea cell (1, 1), whose DJF count is 3, ends
  with 0.
\<close>
theorem identity_window_sea_cell_zeroed:
  "\<not> coast_mask 1 1 \<and> seasonal_aggregate coast_reports 0 0 1 1 = 3
   \<and> window_loop sh coast_mask coast_reports np_zeros 0 0 0 1 1 = 0"
  by (simp add: coast_mask_def coast_reports_def window_loop_cell months_nth sh_def
      masked_convolve_def seasonal_aggregate_def)

text \<open>
  C9.  The DJF slice labelled with year index \<open>Y\<close> is accumulated from the December, January
  and February grids of that same year index (months 11, 0 and 1 of \<open>tin[Y]\<close>) and from
  nothing else: no grid of another year enters it.
\<close>
theorem djf_from_same_year:
  assumes "j < n_window shp" and "Y < n_year shp"
  shows "window_loop shp ls_mask tin np_zeros j Y 0 la lo =
             masked_convolve shp ls_mask j (tin Y 11) la lo
           + masked_convolve shp ls_mask j (tin Y 0) la lo
           + masked_convolve shp ls_mask j (tin Y 1) la lo
       \<and> (\<forall>tin'. tin' Y 11 = tin Y 11 \<and> tin' Y 0 = tin Y 0 \<and> tin' Y 1 = tin Y 1 \<longrightarrow>
            window_loop shp ls_mask tin' np_zeros j Y 0 la lo =
            window_loop shp ls_mask tin np_zeros j Y 0 la lo)"
  using assms by (simp add: window_loop_cell months_nth)

theorem djf_from_same_year_witness:
  "(1::nat) < n_window sh \<and> (3::nat) < n_year sh
   \<and> window_loop sh coast_mask coast_reports np_zeros 1 3 0 0 0 =
         masked_convolve sh coast_mask 1 (coast_reports 3 11) 0 0
       + masked_convolve sh coast_mask 1 (coast_reports 3 0) 0 0
       + masked_convolve sh coast_mask 1 (coast_reports 3 1) 0 0
   \<and> window_loop sh coast_mask coast_reports np_zeros 1 3 0 0 0 = 3"
  using djf_from_same_year [of 1 sh 3 coast_mask coast_reports 0 0]
    coast_window_1_djf [of 3] coast_masked_convolve
  by (simp add: sh_def)

section \<open>The overwrite loops of the composite in closed form\<close>

lemma fold_product:
  "fold (\<lambda>x. fold (g x) ys) xs acc = fold (\<lambda>p. g (fst p) (snd p)) (List.product xs ys) acc"
  by (induction xs arbitrary: acc) (simp_all add: fold_map comp_def)

lemma window_pass_cell:
  "fcomp (window_pass f s t i acc) c = (if eligible f s c (t, i) then f i c else fcomp acc c)"
  "scomp (window_pass f s t i acc) c = (if eligible f s c (t, i) then s i c else scomp acc c)"
  "rcomp (window_pass f s t i acc) c = (if eligible f s c (t, i) then of_nat i else rcomp acc c)"
  by (simp_all add: window_pass_def eligible_def sratio_def Let_def)

lemma fold_window_pass_cell:
  "cell_of (fold (\<lambda>p. window_pass f s (fst p) (snd p)) ps acc) c =
     (case rev (filter (eligible f s c) ps) of
        [] \<Rightarrow> cell_of acc c
      | p # qs \<Rightarrow> (f (snd p) c, s (snd p) c, of_nat (snd p)))"
proof (induction ps rule: rev_induct)
  case Nil
  show ?case by simp
next
  case (snoc p ps)
  show ?case
  proof (cases "eligible f s c p")
    case True
    then show ?thesis
      by (cases p) (simp add: cell_of_def window_pass_cell)
  next
    case False
    then show ?thesis
      using snoc by (cases p) (simp add: cell_of_def window_pass_cell)
  qed
qed

lemma composite_fractions_fold:
  "composite_fractions shp f s =
     fold (\<lambda>p. window_pass f s (fst p) (snd p)) (iteration_order shp) composite_init"
  unfolding composite_fractions_def iteration_order_def
  by (subst fold_product [symmetric]) (simp add: threshold_pass_def [abs_def])

lemma composite_fractions_cell:
  "cell_of (composite_fractions shp f s) c = assignment f s c (last_eligible shp f s c)"
  using fold_window_pass_cell [of f s "iteration_order shp" composite_init c]
  by (simp add: composite_fractions_fold cell_of_def last_eligible_def assignment_def
      composite_init_def split: list.splits)

lemma case_rev_last:
  "xs \<noteq> [] \<Longrightarrow> (case rev xs of [] \<Rightarrow> None | p # ps \<Rightarrow> Some p) = Some (last xs)"
  by (induction xs rule: rev_induct) simp_all

lemma iteration_order_snd:
  "p \<in> set (iteration_order shp) \<Longrightarrow> snd p < n_window shp"
  by (auto simp add: iteration_order_def)

lemma iteration_order_hd:
  "0 < n_window shp \<Longrightarrow> hd (iteration_order shp) = (0.4, n_window shp - 1)"
  by (cases "n_window shp") (simp_all add: iteration_order_def thresholds_def)

lemma iteration_order_last:
  "0 < n_window shp \<Longrightarrow> last (iteration_order shp) = (0.001, 0)"
  by (simp add: iteration_order_def thresholds_def last_map last_rev)

lemma iteration_order_nonempty:
  "0 < n_window shp \<Longrightarrow> iteration_order shp \<noteq> []"
  by (simp add: iteration_order_def thresholds_def)

lemma low_signal_zero: "flt (fadd (Fin 0) (Fin 0)) (Fin 0.01)"
  by (simp add: flt_def fadd_def is_inf_def to_real_def)

lemma upt_0_7: "[0..<7] = [0, 1, 2, 3, 4, 5, 6]"
  by code_simp

lemma scenario_last: "last_eligible sh scenario_f scenario_s (0, 0, 0, 0) = Some (0.001, 0)"
  by (simp add: last_eligible_def iteration_order_def thresholds_def sh_def upt_0_7
      eligible_def scenario_f_def scenario_s_def fdiv_def fadd_def flt_def is_inf_def
      is_zero_def is_neg_def to_real_def)

section \<open>Properties of the composite selection\<close>

text \<open>
  C2.  At every cell the composite \<open>(f, s, r)\<close> is the assignment made by the last eligible
  (threshold, window) pair of the iteration order (thresholds outermost from 0.4 down to
  0.001, windows from the widest down to 0), a pair being eligible when \<open>s/f < threshold\<close>
  or \<open>f + s < 0.01\<close> at the cell; a cell with no eligible pair keeps \<open>r = -1\<close> and NaN in
  \<open>f\<close> and \<open>s\<close>.
\<close>
theorem composite_is_last_eligible_assignment:
  "(fcomp (composite_fractions shp f s) c, scomp (composite_fractions shp f s) c,
    rcomp (composite_fractions shp f s) c) =
   (case last_eligible shp f s c of
      None \<Rightarrow> (NaN, NaN, - 1)
    | Some p \<Rightarrow> (f (snd p) c, s (snd p) c, of_nat (snd p)))"
  using composite_fractions_cell [of shp f s c]
  by (simp add: cell_of_def assignment_def)

theorem composite_is_last_eligible_assignment_witness:
  "(fcomp (composite_fractions sh scenario_f scenario_s) (0, 0, 0, 0),
    scomp (composite_fractions sh scenario_f scenario_s) (0, 0, 0, 0),
    rcomp (composite_fractions sh scenario_f scenario_s) (0, 0, 0, 0)) =
   (Fin 0.52, Fin 0.0005, 0)"
  using composite_is_last_eligible_assignment [of sh scenario_f scenario_s "(0, 0, 0, 0)"]
  unfolding scenario_last
  by (simp add: scenario_f_def scenario_s_def)

text \<open>
  C4.  Wherever \<open>f\<close> is 0 at a window, \<open>s/f\<close> does not fail, the comparison of the NaN or
  inf with the threshold is false, and the cell can be selected only through
  \<open>f + s < 0.01\<close>.  The division indeed never fails, but the comparison is not always
  false: the quotient of a negative \<open>s\<close> and a zero \<open>f\<close> is \<open>-inf\<close>, which is below every
  threshold.
\<close>
theorem negative_sigma_passes_threshold_test:
  "zero_fractions 6 (0, 0, 0, 0) = Fin 0
   \<and> sratio zero_fractions negative_sigmas 6 (0, 0, 0, 0) = NInf
   \<and> flt (sratio zero_fractions negative_sigmas 6 (0, 0, 0, 0)) (Fin 0.4)"
  by (simp add: zero_fractions_def negative_sigmas_def sratio_def fdiv_def flt_def is_inf_def
      is_zero_def is_neg_def signed_inf_def)

text \<open>
  The same happens with a fraction of \<open>-0.0\<close>, which also equals 0: a positive \<open>s\<close> over it
  is \<open>-inf\<close>, and the cell is selected by the threshold test although \<open>f + s\<close> is not below
  0.01.
\<close>
lemma negative_zero_fraction_selected:
  "is_zero (negative_zero_fractions 6 (0, 0, 0, 0))
   \<and> flt (sratio negative_zero_fractions half_sigmas 6 (0, 0, 0, 0)) (Fin 0.4)
   \<and> \<not> flt (fadd (negative_zero_fractions 6 (0, 0, 0, 0)) (half_sigmas 6 (0, 0, 0, 0)))
         (Fin 0.01)
   \<and> eligible negative_zero_fractions half_sigmas (0, 0, 0, 0) (0.4, 6)"
  by (simp add: negative_zero_fractions_def half_sigmas_def sratio_def eligible_def fdiv_def
      fadd_def flt_def is_inf_def is_zero_def is_neg_def signed_inf_def to_real_def)

text \<open>
  C4, as the selection behaves.  Where \<open>f\<close> is +0.0 at a window and \<open>s\<close> is not negative
  there, \<open>s/f\<close> is NaN or +inf, the comparison with the threshold is false, and the pass of
  that window selects the cell exactly when \<open>f + s < 0.01\<close>.
\<close>
theorem zero_fraction_low_signal_only:
  assumes f0: "f i c = Fin 0" and s_nonneg: "\<not> is_neg (s i c)"
  shows "(sratio f s i c = NaN \<or> sratio f s i c = PInf)
       \<and> \<not> flt (sratio f s i c) (Fin sthresh)
       \<and> (eligible f s c (sthresh, i) \<longleftrightarrow> flt (fadd (f i c) (s i c)) (Fin 0.01))
       \<and> cell_of (window_pass f s sthresh i acc) c =
           (if flt (fadd (f i c) (s i c)) (Fin 0.01) then (f i c, s i c, of_nat i)
            else cell_of acc c)"
proof -
  have r: "sratio f s i c = NaN \<or> sratio f s i c = PInf"
    using f0 s_nonneg
    by (cases "s i c")
       (simp_all add: sratio_def fdiv_def is_inf_def is_zero_def is_neg_def signed_inf_def)
  then have m1: "\<not> flt (sratio f s i c) (Fin sthresh)"
    by (auto simp add: flt_def)
  then have el: "eligible f s c (sthresh, i) \<longleftrightarrow> flt (fadd (f i c) (s i c)) (Fin 0.01)"
    by (simp add: eligible_def sratio_def)
  show ?thesis
    using r m1 el by (simp add: cell_of_def window_pass_cell)
qed

theorem zero_fraction_low_signal_only_witness:
  "zero_fractions 6 (0, 0, 0, 0) = Fin 0 \<and> \<not> is_neg (half_sigmas 6 (0, 0, 0, 0))
   \<and> sratio zero_fractions half_sigmas 6 (0, 0, 0, 0) = PInf
   \<and> \<not> flt (sratio zero_fractions half_sigmas 6 (0, 0, 0, 0)) (Fin 0.4)
   \<and> \<not> eligible zero_fractions half_sigmas (0, 0, 0, 0) (0.4, 6)
   \<and> cell_of (window_pass zero_fractions half_sigmas 0.4 6 composite_init) (0, 0, 0, 0) =
       (NaN, NaN, - 1)"
proof -
  have f0: "zero_fractions 6 (0, 0, 0, 0) = Fin 0"
    by (simp add: zero_fractions_def)
  have s_nonneg: "\<not> is_neg (half_sigmas 6 (0, 0, 0, 0))"
    by (simp add: half_sigmas_def is_neg_def)
  have low: "\<not> flt (fadd (zero_fractions 6 (0, 0, 0, 0)) (half_sigmas 6 (0, 0, 0, 0))) (Fin 0.01)"
    by (simp add: zero_fractions_def half_sigmas_def flt_def fadd_def is_inf_def to_real_def)
  have ratio: "sratio zero_fractions half_sigmas 6 (0, 0, 0, 0) = PInf"
    by (simp add: sratio_def zero_fractions_def half_sigmas_def fdiv_def is_inf_def
        is_zero_def is_neg_def signed_inf_def)
  show ?thesis
    using zero_fraction_low_signal_only [where f = zero_fractions and s = half_sigmas
        and i = 6 and c = "(0, 0, 0, 0)" and sthresh = "0.4" and acc = composite_init]
      low ratio f0 s_nonneg
    by (simp add: cell_of_def composite_init_def)
qed

text \<open>
  C7.  A cell whose fraction and standard error are 0 in every window: the first pair of
  the iteration order is the largest threshold with the widest window, the low-signal test
  holds there, and after all passes the cell holds window 0 (with \<open>f = 0\<close> and \<open>s = 0\<close>),
  not \<open>-1\<close>.
\<close>
theorem zero_cell_ends_at_window_0:
  assumes nw: "0 < n_window shp"
      and zero: "\<forall>i<n_window shp. f i c = Fin 0 \<and> s i c = Fin 0"
  shows "hd (iteration_order shp) = (0.4, n_window shp - 1)
       \<and> flt (fadd (f (n_window shp - 1) c) (s (n_window shp - 1) c)) (Fin 0.01)
       \<and> eligible f s c (hd (iteration_order shp))
       \<and> cell_of (composite_fractions shp f s) c = (Fin 0, Fin 0, 0)
       \<and> rcomp (composite_fractions shp f s) c \<noteq> - 1"
proof -
  have el: "eligible f s c p" if "p \<in> set (iteration_order shp)" for p
    using iteration_order_snd [OF that] zero low_signal_zero by (simp add: eligible_def)
  then have "filter (eligible f s c) (iteration_order shp) = iteration_order shp"
    by (simp add: filter_id_conv)
  then have "last_eligible shp f s c = Some (0.001, 0)"
    using nw
    by (simp add: last_eligible_def case_rev_last iteration_order_nonempty iteration_order_last)
  then have final: "cell_of (composite_fractions shp f s) c = (Fin 0, Fin 0, 0)"
    using zero nw by (simp add: composite_fractions_cell assignment_def)
  then have "rcomp (composite_fractions shp f s) c \<noteq> - 1"
    by (simp add: cell_of_def)
  moreover have "flt (fadd (f (n_window shp - 1) c) (s (n_window shp - 1) c)) (Fin 0.01)"
    using zero nw low_signal_zero by simp
  moreover have "eligible f s c (hd (iteration_order shp))"
    using nw by (intro el hd_in_set iteration_order_nonempty)
  ultimately show ?thesis
    using nw final by (simp add: iteration_order_hd)
qed

theorem zero_cell_ends_at_window_0_witness:
  "(0::nat) < n_window sh
   \<and> hd (iteration_order sh) = (0.4, 6)
   \<and> eligible zero_fractions zero_fractions (0, 0, 0, 0) (0.4, 6)
   \<and> cell_of (composite_fractions sh zero_fractions zero_fractions) (0, 0, 0, 0) = (Fin 0, Fin 0, 0)
   \<and> rcomp (composite_fractions sh zero_fractions zero_fractions) (0, 0, 0, 0) \<noteq> - 1"
proof -
  have nw: "0 < n_window sh"
    by (simp add: sh_def)
  have zero: "\<forall>i<n_window sh. zero_fractions i (0, 0, 0, 0) = Fin 0
      \<and> zero_fractions i (0, 0, 0, 0) = Fin 0"
    by (simp add: zero_fractions_def)
  have "n_window sh - 1 = 6"
    by (simp add: sh_def)
  then show ?thesis
    using zero_cell_ends_at_window_0 [where shp = sh and f = zero_fractions
        and s = zero_fractions and c = "(0, 0, 0, 0)"] nw zero
    by auto
qed

section \<open>The binning in closed form\<close>

lemma digitize1_le: "digitize1 bins x \<le> length bins"
  by (simp add: digitize1_def length_takeWhile_le)

lemma np_index_digitize:
  "bins \<noteq> [] \<Longrightarrow> np_index bins (int (digitize1 bins x) - 1) = Inr (assigned_edge bins x)"
  using digitize1_le [of bins x]
  by (auto simp add: np_index_def assigned_edge_def Let_def last_conv_nth nat_diff_distrib')

lemma np_take_digitize:
  "bins \<noteq> [] \<Longrightarrow>
   np_take bins (map (\<lambda>r. int (digitize1 bins (g r)) - 1) rs) =
     Inr (map (\<lambda>r. assigned_edge bins (g r)) rs)"
  by (induction rs) (simp_all add: np_index_digitize)

lemma with_bins_length:
  "length las = length df \<Longrightarrow> length los = length df \<Longrightarrow> length (with_bins df las los) = length df"
  by (induction df las los rule: with_bins.induct) simp_all

lemma with_bins_nth:
  "length las = length df \<Longrightarrow> length los = length df \<Longrightarrow> k < length df \<Longrightarrow>
   LAT_BIN (with_bins df las los ! k) = las ! k \<and> LON_BIN (with_bins df las los ! k) = los ! k"
proof (induction df las los arbitrary: k rule: with_bins.induct)
  case (1 r rs la las lo los)
  then show ?case by (cases k) simp_all
qed simp_all

lemma add_bins_sorted:
  assumes "sorted lat_edges" "lat_edges \<noteq> []" "sorted lon_edges" "lon_edges \<noteq> []"
  shows "add_bins lat_edges lon_edges df =
     Inr (with_bins df (map (\<lambda>r. assigned_edge lat_edges (LAT r)) df)
                       (map (\<lambda>r. assigned_edge lon_edges (LON r)) df))"
  using assms by (simp add: add_bins_def np_digitize_def comp_def np_take_digitize)

lemma assigned_edge_greatest:
  assumes srt: "sorted bins" and ne: "bins \<noteq> []" and lo: "real_of_int (hd bins) \<le> x"
  shows "greatest_lower_edge bins x (assigned_edge bins x)"
proof -
  define P where "P = (\<lambda>b. real_of_int b \<le> x)"
  define d where "d = length (takeWhile P bins)"
  have dig: "digitize1 bins x = d"
    using srt by (simp add: digitize1_def d_def P_def)
  have "P (hd bins)" using lo by (simp add: P_def)
  then have dpos: "0 < d"
    using ne by (cases bins) (simp_all add: d_def)
  have dle: "d \<le> length bins"
    by (simp add: d_def length_takeWhile_le)
  have edge: "assigned_edge bins x = bins ! (d - 1)"
    using dpos by (simp add: assigned_edge_def dig)
  have "takeWhile P bins ! (d - 1) = bins ! (d - 1)"
    using dpos by (intro takeWhile_nth) (simp add: d_def)
  moreover have "takeWhile P bins ! (d - 1) \<in> set (takeWhile P bins)"
    using dpos by (intro nth_mem) (simp add: d_def)
  ultimately have holds: "P (bins ! (d - 1))"
    by (metis set_takeWhileD)
  have mem: "bins ! (d - 1) \<in> set bins"
    using dpos dle by simp
  have max: "b' \<le> bins ! (d - 1)" if b': "b' \<in> set bins" "P b'" for b'
  proof -
    from b' obtain k where k: "k < length bins" "bins ! k = b'"
      by (auto simp add: in_set_conv_nth)
    show ?thesis
    proof (cases "k \<le> d - 1")
      case True
      then show ?thesis
        using sorted_nth_mono [OF srt True] k dpos dle by simp
    next
      case False
      then have dk: "d \<le> k" using dpos by simp
      then have "d < length bins" using k by simp
      then have "\<not> P (bins ! d)"
        unfolding d_def by (rule nth_length_takeWhile)
      moreover have "bins ! d \<le> bins ! k"
        using sorted_nth_mono [OF srt dk k(1)] by simp
      ultimately show ?thesis
        using b' k by (simp add: P_def)
    qed
  qed
  show ?thesis
    unfolding greatest_lower_edge_def edge
    using holds mem max by (auto simp add: P_def)
qed

lemma greatest_lower_edge_unique:
  "greatest_lower_edge bins x b \<Longrightarrow> greatest_lower_edge bins x b' \<Longrightarrow> b = b'"
  by (auto simp add: greatest_lower_edge_def intro: antisym)

lemma np_arange_unit:
  "np_arange a b 1 = map (\<lambda>k. a + int k) [0..<nat (b - a)]"
  by (simp add: np_arange_def)

lemma np_arange_unit_facts:
  assumes "a < b"
  shows "sorted (np_arange a b 1)" and "np_arange a b 1 \<noteq> []"
    and "hd (np_arange a b 1) = a" and "last (np_arange a b 1) = b - 1"
    and "set (np_arange a b 1) = {a..<b}"
proof -
  show "sorted (np_arange a b 1)"
    by (simp add: np_arange_unit sorted_iff_nth_mono)
  show "np_arange a b 1 \<noteq> []"
    using assms by (simp add: np_arange_unit)
  show "hd (np_arange a b 1) = a"
    using assms by (simp add: np_arange_unit hd_map)
  show "last (np_arange a b 1) = b - 1"
    using assms by (simp add: np_arange_unit last_map)
  show "set (np_arange a b 1) = {a..<b}"
  proof (intro equalityI subsetI)
    fix v assume "v \<in> set (np_arange a b 1)"
    then show "v \<in> {a..<b}" by (auto simp add: np_arange_unit)
  next
    fix v assume v: "v \<in> {a..<b}"
    then have "v = a + int (nat (v - a))" and "nat (v - a) < nat (b - a)" by auto
    then show "v \<in> set (np_arange a b 1)"
      unfolding np_arange_unit by (metis (no_types, lifting) atLeast0LessThan imageI lessThan_iff list.set_map set_upt)
  qed
qed

lemma assigned_edge_unit_step:
  assumes ab: "a < b"
  shows "assigned_edge (np_arange a b 1) x =
           (if real_of_int a \<le> x \<and> x < real_of_int b then \<lfloor>x\<rfloor> else b - 1)"
proof (cases "real_of_int a \<le> x")
  case False
  have "np_arange a b 1 = a # map (\<lambda>k. a + int k) [Suc 0..<nat (b - a)]"
    using ab by (simp add: np_arange_unit upt_conv_Cons)
  then have "digitize1 (np_arange a b 1) x = 0"
    using False np_arange_unit_facts(1) [OF ab] by (simp add: digitize1_def)
  then show ?thesis
    using False by (simp add: assigned_edge_def np_arange_unit_facts(4) [OF ab])
next
  case True
  let ?e = "if x < real_of_int b then \<lfloor>x\<rfloor> else b - 1"
  have "greatest_lower_edge (np_arange a b 1) x (assigned_edge (np_arange a b 1) x)"
    using True by (intro assigned_edge_greatest) (simp_all add: np_arange_unit_facts [OF ab])
  moreover have "greatest_lower_edge (np_arange a b 1) x ?e"
    using True ab
    by (auto simp add: greatest_lower_edge_def np_arange_unit_facts(5) [OF ab]
        le_floor_iff floor_less_iff)
  ultimately have "assigned_edge (np_arange a b 1) x = ?e"
    by (rule greatest_lower_edge_unique)
  then show ?thesis using True by simp
qed

lemma lats_unit: "lats = np_arange (- 90) 90 1" and lons_unit: "lons = np_arange 0 360 1"
  by (simp_all add: lats_def lons_def dlat_def dlon_def)

lemma lats_facts: "sorted lats" "lats \<noteq> []" "hd lats = - 90"
  by (simp_all add: lats_unit np_arange_unit_facts)

lemma lons_facts: "sorted lons" "lons \<noteq> []" "hd lons = 0"
  by (simp_all add: lons_unit np_arange_unit_facts)

lemma assigned_edge_lats:
  "assigned_edge lats x = (if - 90 \<le> x \<and> x < 90 then \<lfloor>x\<rfloor> else 89)"
  by (simp add: lats_unit assigned_edge_unit_step)

lemma assigned_edge_lons:
  "assigned_edge lons x = (if 0 \<le> x \<and> x < 360 then \<lfloor>x\<rfloor> else 359)"
  by (simp add: lons_unit assigned_edge_unit_step)


section \<open>Counts are monotone through the pipeline\<close>

lemma group_size_filter_le: "group_size (filter P rows) key \<le> group_size rows key"
proof -
  have "filter (\<lambda>r. colgroups r = key) (filter P rows) =
        filter P (filter (\<lambda>r. colgroups r = key) rows)"
    by (simp add: conj_commute)
  then show ?thesis
    by (simp add: group_size_def del: filter_filter)
qed

lemma count_grid_filter_le:
  "count_grid years la_e lo_e (filter P rows) yi mi lai loi
     \<le> count_grid years la_e lo_e rows yi mi lai loi"
  by (simp add: count_grid_def group_size_filter_le)

lemma count_grid_nonneg: "0 \<le> count_grid years la_e lo_e rows yi mi lai loi"
  by (simp add: count_grid_def)

lemma seasonal_aggregate_mono:
  "(\<And>imo la lo. t1 iyr imo la lo \<le> t2 iyr imo la lo) \<Longrightarrow>
   seasonal_aggregate t1 iyr iseason la lo \<le> seasonal_aggregate t2 iyr iseason la lo"
  by (simp add: seasonal_aggregate_def sum_list_mono)

lemma seasonal_aggregate_nonneg:
  "(\<And>imo la lo. 0 \<le> t iyr imo la lo) \<Longrightarrow> 0 \<le> seasonal_aggregate t iyr iseason la lo"
  unfolding seasonal_aggregate_def by (rule sum_list_nonneg) auto

lemma two_reports_binned: "add_bins lats lons two_reports = Inr two_rows"
  by (simp add: add_bins_sorted lats_facts lons_facts two_reports_def two_rows_def
      assigned_edge_lats assigned_edge_lons)

lemma window_0_total:
  assumes "1 < n_window shp" "la < n_lat shp" "lo < n_lon shp"
  shows "window_total shp tin 0 iyr iseason la lo = seasonal_aggregate tin iyr iseason la lo"
  using assms by (simp add: window_total_def kernel_shape_0 convolve2d_identity)

lemma axes_nth: "lats ! 90 = 0" "lons ! 0 = 0" "month_axis ! 0 = 1"
  by (simp_all add: lats_unit lons_unit month_axis_def np_arange_unit)

lemma axes_length: "length lats = 180" "length lons = 360" "length month_axis = 12"
  "month_axis \<noteq> []"
  by (simp_all add: lats_unit lons_unit month_axis_def np_arange_unit)

lemma month_axis_nth: "m < 12 \<Longrightarrow> month_axis ! m = 1 + int m"
  by (simp add: month_axis_def np_arange_unit)

lemma years_facts:
  "length years_1950_2019 = 70" "years_1950_2019 \<noteq> []" "years_1950_2019 ! 0 = 1950"
  by (simp_all add: years_1950_2019_def np_arange_unit)

lemma jan_1950_counts:
  "count_grid years_1950_2019 lats lons two_rows 0 0 90 0 = 2"
  "count_grid years_1950_2019 lats lons (filter (\<lambda>r. 50 \<le> WW r) two_rows) 0 0 90 0 = 1"
  by (simp_all add: count_grid_def axes_nth axes_length lons_facts years_facts group_size_def
      colgroups_def two_rows_def)

lemma later_months_zero:
  "0 < m \<Longrightarrow> count_grid years_1950_2019 lats lons two_rows 0 m 90 0 = 0"
  by (simp add: count_grid_def axes_nth axes_length lons_facts years_facts group_size_def
      colgroups_def two_rows_def month_axis_nth)

lemma djf_1950_total:
  "window_total sh (count_grid years_1950_2019 lats lons two_rows) 0 0 0 90 0 = 2"
  by (simp add: window_0_total sh_def seasonal_aggregate_def months_nth jan_1950_counts
      later_months_zero)

lemma crowded_precip_le: "crowded_precip y m a b \<le> crowded_reports y m a b"
  by (simp add: crowded_precip_def crowded_reports_def)

section \<open>Properties of the binning\<close>

text \<open>
  C8.  A record whose coordinates lie within the edges goes to the cell whose lower edge is
  the greatest edge at or below the coordinate, and a record with a coordinate outside the
  edges makes the binning fail.  The first half holds; the second does not: the binning has
  no range check, \<open>np.digitize\<close> answers 0 below the first edge and \<open>len(bins)\<close> from the
  last edge on, and both index an edge.  The report at 91 degrees south is binned, into the
  row of cells whose lower edge is 89 degrees north.
\<close>
theorem stray_report_binned:
  "LAT (hd stray_report) < real_of_int (hd lats) \<and>
   add_bins lats lons stray_report =
     Inr [\<lparr>YR = 1950, MO = 1, LAT = - 91, LON = 0.5, WW = 2, LAT_BIN = 89, LON_BIN = 0\<rparr>]"
  by (simp add: add_bins_sorted lats_facts lons_facts stray_report_def assigned_edge_lats
      assigned_edge_lons)


text \<open>
  C8, as the binning behaves.  With ascending edges the binning of a dataframe never fails
  and keeps every record; a record whose coordinate is at or above the first edge receives
  the greatest edge at or below the coordinate (so a coordinate beyond the last edge
  receives the last edge).
\<close>
theorem add_bins_floor_edge:
  assumes "sorted lat_edges" and "lat_edges \<noteq> []" and "sorted lon_edges" and "lon_edges \<noteq> []"
  shows "\<exists>rows. add_bins lat_edges lon_edges df = Inr rows \<and> length rows = length df \<and>
     (\<forall>k<length df.
        (real_of_int (hd lat_edges) \<le> LAT (df ! k) \<longrightarrow>
           greatest_lower_edge lat_edges (LAT (df ! k)) (LAT_BIN (rows ! k))) \<and>
        (real_of_int (hd lon_edges) \<le> LON (df ! k) \<longrightarrow>
           greatest_lower_edge lon_edges (LON (df ! k)) (LON_BIN (rows ! k))))"
  using assms
  by (simp add: add_bins_sorted with_bins_length with_bins_nth assigned_edge_greatest)

theorem add_bins_floor_edge_witness:
  "sorted lats \<and> lats \<noteq> [] \<and> sorted lons \<and> lons \<noteq> [] \<and>
   add_bins lats lons pacific_report =
     Inr [\<lparr>YR = 1950, MO = 1, LAT = 12.5, LON = 200.25, WW = 2,
           LAT_BIN = 12, LON_BIN = 200\<rparr>] \<and>
   greatest_lower_edge lats 12.5 12 \<and> greatest_lower_edge lons 200.25 200"
proof -
  have binned: "add_bins lats lons pacific_report =
     Inr [\<lparr>YR = 1950, MO = 1, LAT = 12.5, LON = 200.25, WW = 2,
           LAT_BIN = 12, LON_BIN = 200\<rparr>]"
    by (simp add: add_bins_sorted lats_facts lons_facts pacific_report_def assigned_edge_lats
        assigned_edge_lons)
  show ?thesis
    using add_bins_floor_edge [of lats lons pacific_report] binned
    by (simp add: lats_facts lons_facts pacific_report_def)
qed

text \<open>
  C10.  The qualifying count never exceeds the total count, in every cell of the monthly
  grids and in every cell of the convolved tensors.  The second half fails where the total
  leaves the int32 range.  In the crowded cell rain is reported once a month out of \<open>2^30\<close>
  reports; the three months of DJF accumulate to 3 qualifying reports and to a total that
  an int32 reads as \<open>-2^30\<close>.
\<close>
theorem qualifying_exceeds_total_beyond_int32:
  "crowded_precip 0 0 0 0 \<le> crowded_reports 0 0 0 0
   \<and> sint (snd (convolve_grids sh coast_mask crowded_reports crowded_precip) 0 0 0 0 0) = 3
   \<and> sint (fst (convolve_grids sh coast_mask crowded_reports crowded_precip) 0 0 0 0 0)
       = - (2 ^ 30)"
  by (simp add: convolve_grids_def crowded_window_0 crowded_precip_le)

text \<open>
  C10, as the pipeline behaves.  The qualifying count never exceeds the total count in any
  cell of the monthly grids that the binning produces; and when these grids have the shape
  that the convolver works on, it never exceeds it (as signed int32) in any cell of the
  convolved tensors where the total that the window gathers over the season is below
  \<open>2^31\<close>.
\<close>
theorem qualifying_le_total:
  assumes tab: "tabulate_grids years lat_edges lon_edges df = Inr (nr, n50)"
      and conv: "convolve_grids shp ls_mask nr n50 = (nreports, nprecip)"
      and shape: "length years = n_year shp" "length lat_edges = n_lat shp"
        "length lon_edges = n_lon shp"
      and fits: "window_total shp nr j iyr iseason la lo < 2 ^ 31"
  shows "n50 y m a b \<le> nr y m a b
       \<and> sint (nprecip j iyr iseason la lo) \<le> sint (nreports j iyr iseason la lo)"
proof -
  from tab obtain rows where
    nr: "nr = count_grid years lat_edges lon_edges rows" and
    n50: "n50 = count_grid years lat_edges lon_edges (filter (\<lambda>r. 50 \<le> WW r) rows)"
    by (auto simp add: tabulate_grids_def split: sum.splits)
  have le: "n50 y m a b \<le> nr y m a b" for y m a b
    by (simp add: nr n50 count_grid_filter_le)
  have nonneg50: "0 \<le> n50 y m a b" for y m a b
    by (simp add: n50 count_grid_nonneg)
  have nonneg: "0 \<le> nr y m a b" for y m a b
    by (simp add: nr count_grid_nonneg)
  have tot_le: "window_total shp n50 j iyr iseason la lo \<le> window_total shp nr j iyr iseason la lo"
    unfolding window_total_def
    by (intro convolve2d_ones_mono seasonal_aggregate_mono le)
  have tot_nonneg: "0 \<le> window_total shp n50 j iyr iseason la lo"
    unfolding window_total_def
    by (intro convolve2d_ones_nonneg seasonal_aggregate_nonneg nonneg50)
  have fits50: "window_total shp n50 j iyr iseason la lo < 2 ^ 31"
    using tot_le fits by simp
  have outs: "nreports = window_loop shp ls_mask nr np_zeros"
    "nprecip = window_loop shp ls_mask n50 np_zeros"
    using conv by (simp_all add: convolve_grids_def)
  have "sint (nprecip j iyr iseason la lo) \<le> sint (nreports j iyr iseason la lo)"
    using tot_le tot_nonneg fits fits50
    by (simp add: outs window_loop_total [OF nonneg fits] window_loop_total [OF nonneg50 fits50]
        sint_word_of_int_fits)
  with le show ?thesis by simp
qed

theorem qualifying_le_total_witness:
  "tabulate_grids years_1950_2019 lats lons two_reports =
     Inr (count_grid years_1950_2019 lats lons two_rows,
          count_grid years_1950_2019 lats lons (filter (\<lambda>r. 50 \<le> WW r) two_rows))
   \<and> length years_1950_2019 = n_year sh \<and> length lats = n_lat sh \<and> length lons = n_lon sh
   \<and> window_total sh (count_grid years_1950_2019 lats lons two_rows) 0 0 0 90 0 = 2
   \<and> count_grid years_1950_2019 lats lons (filter (\<lambda>r. 50 \<le> WW r) two_rows) 0 0 90 0 = 1
   \<and> count_grid years_1950_2019 lats lons two_rows 0 0 90 0 = 2
   \<and> sint (snd (convolve_grids sh gulf_mask (count_grid years_1950_2019 lats lons two_rows)
        (count_grid years_1950_2019 lats lons (filter (\<lambda>r. 50 \<le> WW r) two_rows))) 0 0 0 90 0)
       \<le> sint (fst (convolve_grids sh gulf_mask (count_grid years_1950_2019 lats lons two_rows)
        (count_grid years_1950_2019 lats lons (filter (\<lambda>r. 50 \<le> WW r) two_rows))) 0 0 0 90 0)"
proof -
  have tab: "tabulate_grids years_1950_2019 lats lons two_reports =
     Inr (count_grid years_1950_2019 lats lons two_rows,
          count_grid years_1950_2019 lats lons (filter (\<lambda>r. 50 \<le> WW r) two_rows))"
    by (simp add: tabulate_grids_def two_reports_binned)
  have conv: "convolve_grids sh gulf_mask (count_grid years_1950_2019 lats lons two_rows)
       (count_grid years_1950_2019 lats lons (filter (\<lambda>r. 50 \<le> WW r) two_rows)) =
     (fst (convolve_grids sh gulf_mask (count_grid years_1950_2019 lats lons two_rows)
            (count_grid years_1950_2019 lats lons (filter (\<lambda>r. 50 \<le> WW r) two_rows))),
      snd (convolve_grids sh gulf_mask (count_grid years_1950_2019 lats lons two_rows)
            (count_grid years_1950_2019 lats lons (filter (\<lambda>r. 50 \<le> WW r) two_rows))))"
    by simp
  have shape: "length years_1950_2019 = n_year sh" "length lats = n_lat sh"
    "length lons = n_lon sh"
    by (simp_all add: years_facts axes_length sh_def)
  have fits: "window_total sh (count_grid years_1950_2019 lats lons two_rows) 0 0 0 90 0 < 2 ^ 31"
    by (simp add: djf_1950_total)
  show ?thesis
    using qualifying_le_total [OF tab conv shape fits, of 0 0 90 0] tab shape
    by (simp add: djf_1950_total jan_1950_counts)
qed

end
